theory Spec2Isabelle
  imports Main
begin

section \<open>Values shared by the two servers\<close>

text \<open>
  JavaScript strings are modelled as \<^typ>\<open>string\<close>, one character per code unit
  (code units below 256). A value that is either \<open>undefined\<close> or a string (a request
  header, an environment variable, the \<open>Origin\<close> argument of the CORS callback) is a
  \<^typ>\<open>string option\<close>, \<^term>\<open>None\<close> being \<open>undefined\<close>.
\<close>

datatype json =
    JString string
  | JNumber int
  | JBool bool
  | JArray "json list"
  | JObject "(string \<times> json) list"
  | JUndefined

text \<open>JavaScript's \<open>!v\<close> for a value that is \<open>undefined\<close> or a string.\<close>

definition falsy :: "string option \<Rightarrow> bool" where
  "falsy v = (case v of None \<Rightarrow> True | Some s \<Rightarrow> s = [])"

text \<open>A string-or-undefined value as it appears inside a JSON body.\<close>

definition json_of :: "string option \<Rightarrow> json" where
  "json_of v = (case v of None \<Rightarrow> JUndefined | Some s \<Rightarrow> JString s)"

text \<open>
  The part of an Express request the handlers read: the (lower-cased) header table,
  the request id set by \<open>addRequestId\<close>, the method, the original URL and the client
  address.
\<close>

record request =
  headers :: "string \<Rightarrow> string option"
  requestId :: "string option"
  req_method :: string
  originalUrl :: string
  ip :: "string option"

text \<open>
  What a handler does with a request: it answers through
  \<open>res.status(code).json(body)\<close> (status 200 when \<open>res.json\<close> is called alone), it
  redirects with \<open>res.redirect(path)\<close>, or it hands over with \<open>next()\<close>.
\<close>

datatype outcome = Responded nat json | Redirected string | NextCalled

section \<open>\<open>Rishab node/server.js\<close>: the \<open>fakeAuth\<close> middleware\<close>

definition fakeAuth :: "request \<Rightarrow> outcome" where
  "fakeAuth req =
     (let token = headers req ''authorization'' in
      if falsy token then
        Responded 401 (JObject [(''error'', JString ''No token provided'')])
      else if token \<noteq> Some ''FAKE_TOKEN_123'' then
        Responded 403 (JObject [(''error'', JString ''Invalid token'')])
      else NextCalled)"

text \<open>A request that carries the given authorization header and no other.\<close>

definition request_with_authorization :: "string option \<Rightarrow> request" where
  "request_with_authorization v =
     \<lparr>headers = (\<lambda>name. if name = ''authorization'' then v else None),
      requestId = None, req_method = ''GET'', originalUrl = ''/'', ip = None\<rparr>"

section \<open>\<open>testing_repo21/server.js\<close>: the user service\<close>

text \<open>
  The module \<open>@shared/config\<close> is not part of the sources; the values the file reads
  from it are parameters: the port and the route prefix (both as the strings the
  template literals make of them) and the two rate-limit numbers.
\<close>

record config =
  port_user :: string
  routes_user :: string
  rateLimit_windowMs :: int
  rateLimit_max :: int

text \<open>What the handlers write to the console and to the logger.\<close>

datatype log_event =
    ConsoleLog "string list"
  | LoggerWarn string json

definition debugRegister :: "string \<Rightarrow> string \<Rightarrow> log_event" where
  "debugRegister kind path = ConsoleLog [''[DEBUG] Registering '' @ kind @ '' on path:'', path]"

subsection \<open>The CORS origin callback\<close>

text \<open>
  \<open>String.prototype.split(',')\<close>: the pieces between the separators, empty pieces
  included; \<open>String.prototype.trim()\<close>: white space and line terminators removed at
  both ends (those with a code unit below 256).
\<close>

fun split_on :: "char \<Rightarrow> string \<Rightarrow> string list" where
  "split_on c [] = [[]]"
| "split_on c (x # xs) =
     (if x = c then [] # split_on c xs
      else (case split_on c xs of
              [] \<Rightarrow> [[x]]
            | w # ws \<Rightarrow> (x # w) # ws))"

definition js_whitespace :: "char \<Rightarrow> bool" where
  "js_whitespace c = (of_char c \<in> {9, 10, 11, 12, 13, 32, 160 :: nat})"

definition trim :: "string \<Rightarrow> string" where
  "trim s = rev (dropWhile js_whitespace (rev (dropWhile js_whitespace s)))"

definition default_origins :: "string list" where
  "default_origins =
     [''http://localhost:4007'',
      ''http://localhost:4040'',
      ''http://localhost:8080'',
      ''http://localhost:3000'',
      ''http://localhost:3001'',
      ''http://localhost:4015'',
      ''https://oms-ims.onrender.com'']"

text \<open>
  The list the callback builds from \<open>process.env.ALLOWED_ORIGINS\<close>: the variable is
  used when it is truthy (set to a non-empty string), the default list otherwise.
\<close>

definition allowedOrigins :: "string option \<Rightarrow> string list" where
  "allowedOrigins env =
     (case env of
        None \<Rightarrow> default_origins
      | Some s \<Rightarrow> if s = [] then default_origins else map trim (split_on CHR '','' s))"

text \<open>
  The callback is called once: \<open>callback(null, true)\<close> or
  \<open>callback(new Error('Not allowed by CORS'))\<close>.
\<close>

datatype cors_result = Allowed | NotAllowed string

definition cors_origin :: "string option \<Rightarrow> string option \<Rightarrow> log_event list \<times> cors_result" where
  "cors_origin env origin =
     (case origin of
        None \<Rightarrow> ([], Allowed)
      | Some og \<Rightarrow>
          if og = [] then ([], Allowed)
          else if og \<in> set (allowedOrigins env) then ([], Allowed)
          else ([LoggerWarn ''CORS blocked request'' (JObject [(''origin'', JString og)])],
                NotAllowed ''Not allowed by CORS''))"

subsection \<open>The routes the file registers itself, and the documentation\<close>

definition base_url :: "config \<Rightarrow> string" where
  "base_url cfg = ''http://localhost:'' @ port_user cfg"

text \<open>The template literal \<open>${base_url}/${config.routes.user}<suffix>\<close>.\<close>

definition api_url :: "config \<Rightarrow> string \<Rightarrow> string" where
  "api_url cfg suffix = base_url cfg @ ''/'' @ routes_user cfg @ suffix"

text \<open>The template literal \<open>/${config.routes.user}<suffix>\<close>.\<close>

definition route_path :: "config \<Rightarrow> string \<Rightarrow> string" where
  "route_path cfg suffix = ''/'' @ routes_user cfg @ suffix"

text \<open>
  \<open>app.get\<close> is called three times in the file; every other route of the service
  is in the router \<open>./user_routes\<close>, mounted under the prefix and not part of the
  sources.
\<close>

definition own_routes :: "config \<Rightarrow> (string \<times> string) list" where
  "own_routes cfg =
     [(''GET'', route_path cfg ''/health''),
      (''GET'', ''/''),
      (''GET'', route_path cfg ''/docs'')]"

definition root_handler :: "config \<Rightarrow> request \<Rightarrow> outcome" where
  "root_handler cfg req = Redirected (route_path cfg ''/docs'')"

text \<open>
  One entry of a \<open>parameters\<close> object: \<open>{type: 'string', required: ..., description: ...}\<close>.
\<close>

definition param :: "bool \<Rightarrow> string \<Rightarrow> json" where
  "param required description =
     JObject [(''type'', JString ''string''),
              (''required'', JBool required),
              (''description'', JString description)]"


text \<open>
  The object the \<open>/docs\<close> route sends. \<open>timestamp\<close> is
  \<open>new Date().toISOString()\<close>, read from the clock by the handler.
\<close>

definition apiDocumentation :: "config \<Rightarrow> string \<Rightarrow> json" where
  "apiDocumentation cfg timestamp =
     JObject
      [(''service'', JString ''User Management Service''),
       (''version'', JString ''1.0.0''),
       (''status'', JString ''active''),
       (''timestamp'', JString timestamp),
       (''endpoints'', JObject
         [(''health'', JObject
            [(''url'', JString (api_url cfg ''/health'')),
             (''method'', JString ''GET''),
             (''description'', JString ''Service health check'')]),
          (''getProfile'', JObject
            [(''url'', JString (api_url cfg ''/profile'')),
             (''method'', JString ''GET''),
             (''description'', JString ''Get user profile information''),
             (''parameters'', JObject
               [(''email'', param True ''User account identifier'')])]),
          (''refreshToken'', JObject
            [(''url'', JString (api_url cfg ''/refresh-token'')),
             (''method'', JString ''POST''),
             (''description'', JString ''Refresh access token using refresh token''),
             (''parameters'', JObject
               [(''refreshToken'', param True ''Valid refresh token'')])]),
          (''resendOTP'', JObject
            [(''url'', JString (api_url cfg ''/resend_otp'')),
             (''method'', JString ''POST''),
             (''description'', JString ''Resend OTP.''),
             (''parameters'', JObject
               [(''email'', param True ''User account identifier''),
                (''event'', JObject
                  [(''type'', JString ''string''),
                   (''required'', JBool True),
                   (''description'', JString ''event required to identify the action''),
                   (''value'', JString
                      (CHR 0x27 # ''Reset Password'' @ CHR 0x27 #
                       '' to resend otp at reset password OR '' @ CHR 0x27 # ''Register'' @
                       CHR 0x27 # '' to resend otp at register time''))])])]),
          (''registerNewUsers'', JObject
            [(''url'', JString (api_url cfg ''/register'')),
             (''method'', JString ''POST''),
             (''description'', JString ''Register New Users''),
             (''parameters'', JObject
               [(''email'', param True ''User account identifier''),
                (''phone'', param True ''User identifier''),
                (''companyName'', param False ''User identifier''),
                (''password'', param True ''User account password''),
                (''first_name'', param True ''User first name''),
                (''last_name'', param True ''User last name'')])]),
          (''verifyAccount'', JObject
            [(''url'', JString (api_url cfg ''/register_auth'')),
             (''method'', JString ''POST''),
             (''description'', JString ''Account verification for newly registered users.''),
             (''parameters'', JObject
               [(''email'', param True ''User account identifier''),
                (''otp'', param True ''6-digit OTP received via email'')])]),
          (''login'', JObject
            [(''url'', JString (api_url cfg ''/login'')),
             (''method'', JString ''POST''),
             (''description'', JString
                ''Login user using their credentials. Returns access and refresh tokens.''),
             (''parameters'', JObject
               [(''email'', param True ''User account identifier''),
                (''password'', param True ''User account password'')]),
             (''response'', JObject
               [(''accessToken'', JString ''JWT access token (15min expiry)''),
                (''refreshToken'', JString ''JWT refresh token (7 days expiry)''),
                (''tokenType'', JString ''Bearer''),
                (''expiresIn'', JString ''15m''),
                (''refreshExpiresIn'', JString ''7d''),
                (''user'', JString ''User profile object'')])]),
          (''forgotPassword'', JObject
            [(''url'', JString (api_url cfg ''/reset_pass_user_auth'')),
             (''method'', JString ''POST''),
             (''description'', JString
                ''Email verification to the user before resetting the password (sends OTP).''),
             (''parameters'', JObject
               [(''email'', param True ''User account identifier'')])]),
          (''verifyResetPasswordOTP'', JObject
            [(''url'', JString (api_url cfg ''/reset_pass_otp_auth'')),
             (''method'', JString ''POST''),
             (''description'', JString ''OTP verification before resetting the password.''),
             (''parameters'', JObject
               [(''email'', param True ''User account identifier''),
                (''otp'', param True ''6-digit OTP received via email'')])]),
          (''updateNewPassword'', JObject
            [(''url'', JString (api_url cfg ''/reset_password'')),
             (''method'', JString ''POST''),
             (''description'', JString ''After OTP verification, update the new password.''),
             (''parameters'', JObject
               [(''email'', param True ''User account identifier''),
                (''newPassword'', param True ''New password for the account'')])]),
          (''logout'', JObject
            [(''url'', JString (api_url cfg ''/logout'')),
             (''method'', JString ''POST''),
             (''description'', JString
                ''Invalidate tokens in the database and clear authentication cookies.''),
             (''parameters'', JObject
               [(''email'', param True ''User account identifier'')])])]),
       (''authentication'', JObject
         [(''type'', JString ''JWT Tokens + Cookies''),
          (''features'', JArray
            [JString ''Access Token (15min expiry)'',
             JString ''Refresh Token (7 days expiry)'',
             JString ''HTTP-only Cookies'',
             JString ''Automatic token refresh''])]),
       (''rateLimit'', JObject
         [(''windowMs'', JNumber (rateLimit_windowMs cfg)),
          (''maxRequests'', JNumber (rateLimit_max cfg))]),
       (''security'', JObject
         [(''cors'', JString ''enabled''),
          (''helmet'', JString ''enabled''),
          (''rateLimit'', JString ''enabled''),
          (''inputValidation'', JString ''enabled''),
          (''httpOnlyCookies'', JString ''enabled'')])]"

definition docs_handler :: "config \<Rightarrow> string \<Rightarrow> request \<Rightarrow> log_event list \<times> outcome" where
  "docs_handler cfg timestamp req =
     ([debugRegister ''route'' (route_path cfg ''/docs'')],
      Responded 200 (apiDocumentation cfg timestamp))"

subsection \<open>The 404 handler\<close>

definition availableEndpoints :: "config \<Rightarrow> string list" where
  "availableEndpoints cfg =
     [route_path cfg ''/docs'',
      route_path cfg ''/health'',
      route_path cfg ''/profile'',
      route_path cfg ''/refresh-token'',
      route_path cfg ''/register'',
      route_path cfg ''/register_auth'',
      route_path cfg ''/login'',
      route_path cfg ''/reset_pass_user_auth'',
      route_path cfg ''/reset_pass_otp_auth'',
      route_path cfg ''/reset_password'',
      route_path cfg ''/resend_otp'',
      route_path cfg ''/logout'']"

definition notFoundHandler :: "config \<Rightarrow> request \<Rightarrow> log_event list \<times> outcome" where
  "notFoundHandler cfg req =
     ([debugRegister ''middleware'' ''* (404 handler)'',
       LoggerWarn ''404 - Route not found''
         (JObject
           [(''requestId'', json_of (requestId req)),
            (''method'', JString (req_method req)),
            (''path'', JString (originalUrl req)),
            (''ip'', json_of (ip req))])],
      Responded 404
        (JObject
          [(''error'', JString ''Route not found''),
           (''message'', JString ''The requested endpoint does not exist''),
           (''requestId'', json_of (requestId req)),
           (''availableEndpoints'', JArray (map JString (availableEndpoints cfg)))]))"

subsection \<open>Reading the documentation object\<close>

text \<open>Property access on a JSON value: \<open>undefined\<close> for a missing key.\<close>

fun jget :: "json \<Rightarrow> string \<Rightarrow> json" where
  "jget (JObject kvs) k = (case map_of kvs k of Some v \<Rightarrow> v | None \<Rightarrow> JUndefined)"
| "jget _ k = JUndefined"

fun jentries :: "json \<Rightarrow> (string \<times> json) list" where
  "jentries (JObject kvs) = kvs"
| "jentries _ = []"

fun jstring :: "json \<Rightarrow> string option" where
  "jstring (JString s) = Some s"
| "jstring _ = None"

fun strip_prefix :: "string \<Rightarrow> string \<Rightarrow> string option" where
  "strip_prefix [] ys = Some ys"
| "strip_prefix (x # xs) [] = None"
| "strip_prefix (x # xs) (y # ys) = (if x = y then strip_prefix xs ys else None)"

text \<open>
  The contract of one documented endpoint: its method, its path after the service
  prefix \<open>${base_url}/${config.routes.user}\<close>, the names of the parameters documented
  with \<open>required: true\<close> and the names of those documented with \<open>required: false\<close>.
\<close>

type_synonym contract = "string \<times> string \<times> string set \<times> string set"

definition fields_where :: "bool \<Rightarrow> json \<Rightarrow> string set" where
  "fields_where r ps = set (map fst (filter (\<lambda>(n, d). jget d ''required'' = JBool r) (jentries ps)))"

definition contract_of :: "config \<Rightarrow> json \<Rightarrow> contract option" where
  "contract_of cfg e =
     (case (jstring (jget e ''method''), jstring (jget e ''url'')) of
        (Some m, Some u) \<Rightarrow>
          (case strip_prefix (api_url cfg []) u of
             Some suffix \<Rightarrow>
               Some (m, suffix, fields_where True (jget e ''parameters''),
                     fields_where False (jget e ''parameters''))
           | None \<Rightarrow> None)
      | _ \<Rightarrow> None)"

definition documented_endpoints :: "config \<Rightarrow> string \<Rightarrow> contract option list" where
  "documented_endpoints cfg timestamp =
     map (\<lambda>(name, e). contract_of cfg e) (jentries (jget (apiDocumentation cfg timestamp) ''endpoints''))"

text \<open>
  The endpoint contract as the specification lists it (section 6): method, path
  suffix, required fields, optional fields.
\<close>

definition spec_contract :: "contract list" where
  "spec_contract =
     [(''POST'', ''/register'',
         {''email'', ''phone'', ''password'', ''first_name'', ''last_name''}, {''companyName''}),
      (''POST'', ''/register_auth'', {''email'', ''otp''}, {}),
      (''POST'', ''/resend_otp'', {''email'', ''event''}, {}),
      (''POST'', ''/login'', {''email'', ''password''}, {}),
      (''POST'', ''/refresh-token'', {''refreshToken''}, {}),
      (''GET'', ''/profile'', {''email''}, {}),
      (''POST'', ''/reset_pass_user_auth'', {''email''}, {}),
      (''POST'', ''/reset_pass_otp_auth'', {''email'', ''otp''}, {}),
      (''POST'', ''/reset_password'', {''email'', ''newPassword''}, {}),
      (''POST'', ''/logout'', {''email''}, {})]"

section \<open>The token and OTP core\<close>

text \<open>
  The router \<open>./user_routes\<close> and the services behind it are not part of the
  sources: \<open>server.js\<close> only mounts the router and documents its endpoints. The
  definitions of this section are modelled from the specification (sections 3 and 4).
  Times are seconds on one clock; the clock, the random codes and token identifiers,
  the hash functions and the signing scheme are the collaborators of section 9 and are
  parameters.
\<close>

subsection \<open>Token Service and Session Registry\<close>

text \<open>
  Modelled from the spec: the content of a token, "account identifier, issuance time,
  expiry time, and a unique token identifier" (section 3); the token itself is the
  string \<open>sign(claims)\<close>, read back by \<open>verify(token) -> claims | error\<close> (section 9).
\<close>

record token_claims =
  subject :: string
  issued_at :: nat
  expires_at :: nat
  token_id :: string

text \<open>Modelled from the spec: the token failures of section 7.\<close>

datatype token_error = TokenExpired | TokenInvalid | TokenRevoked

text \<open>
  Modelled from the spec: \<open>verifyAccess(token)\<close> of the Token Service (section 4.3),
  "checks signature validity and expiry; fails with TokenExpired or TokenInvalid;
  returns the embedded account identifier on success". \<open>vf\<close> is the signature check.
\<close>

definition verifyAccess :: "(string \<Rightarrow> token_claims option) \<Rightarrow> nat \<Rightarrow> string \<Rightarrow> token_error + string" where
  "verifyAccess vf now t =
     (case vf t of
        None \<Rightarrow> Inl TokenInvalid
      | Some c \<Rightarrow> if expires_at c \<le> now then Inl TokenExpired else Inr (subject c))"

text \<open>
  Modelled from the spec: a Session Registry entry, "account identifier, refresh-token
  identifier, issued-at, revoked flag" (section 3).
\<close>

record session_entry =
  se_account :: string
  se_token_id :: string
  se_issued_at :: nat
  revoked :: bool

text \<open>Modelled from the spec: \<open>register(accountId, tokenId, issuedAt)\<close> (section 4.4).\<close>

definition sr_register :: "session_entry list \<Rightarrow> string \<Rightarrow> string \<Rightarrow> nat \<Rightarrow> session_entry list" where
  "sr_register reg a tid iat =
     reg @ [\<lparr>se_account = a, se_token_id = tid, se_issued_at = iat, revoked = False\<rparr>]"

text \<open>Modelled from the spec: \<open>isActive(tokenId)\<close> (section 4.4).\<close>

definition isActive :: "session_entry list \<Rightarrow> string \<Rightarrow> bool" where
  "isActive reg tid = list_ex (\<lambda>e. se_token_id e = tid \<and> \<not> revoked e) reg"

text \<open>Modelled from the spec: \<open>revoke(tokenId)\<close> (section 4.4).\<close>

definition revoke :: "session_entry list \<Rightarrow> string \<Rightarrow> session_entry list" where
  "revoke reg tid = map (\<lambda>e. if se_token_id e = tid then e\<lparr>revoked := True\<rparr> else e) reg"

text \<open>
  Modelled from the spec: the lifetime of an access token, "short TTL, 15 minutes"
  (section 3), in seconds.
\<close>

definition access_ttl :: nat where
  "access_ttl = 15 * 60"

text \<open>
  Modelled from the spec: the lifetime of a refresh token, "long TTL, 7 days"
  (section 3), in seconds.
\<close>

definition refresh_ttl :: nat where
  "refresh_ttl = 7 * 24 * 60 * 60"

text \<open>
  Modelled from the spec: what \<open>issuePair\<close> returns, "both plus token type (Bearer) and
  expiry metadata" (section 4.3), with the field names of the login response of
  section 6.
\<close>

record token_pair =
  accessToken :: string
  refreshToken :: string
  tokenType :: string
  expiresIn :: string
  refreshExpiresIn :: string

text \<open>Modelled from the spec: the claims of a fresh access token (TTL 15m).\<close>

definition access_claims :: "string \<Rightarrow> nat \<Rightarrow> string \<Rightarrow> token_claims" where
  "access_claims a now tid =
     \<lparr>subject = a, issued_at = now, expires_at = now + access_ttl, token_id = tid\<rparr>"

text \<open>Modelled from the spec: the claims of a fresh refresh token (TTL 7d, unique id).\<close>

definition refresh_claims :: "string \<Rightarrow> nat \<Rightarrow> string \<Rightarrow> token_claims" where
  "refresh_claims a now tid =
     \<lparr>subject = a, issued_at = now, expires_at = now + refresh_ttl, token_id = tid\<rparr>"

text \<open>
  Modelled from the spec: \<open>issuePair(accountId)\<close> (section 4.3), "produces a fresh
  access token (TTL 15m) and refresh token (TTL 7d, unique id), registers the refresh
  token with Session Registry, returns both plus token type (Bearer) and expiry
  metadata". \<open>sg\<close> signs; \<open>tid_a\<close> and \<open>tid_r\<close> are the two fresh identifiers.
\<close>

definition issuePair ::
  "(token_claims \<Rightarrow> string) \<Rightarrow> nat \<Rightarrow> string \<Rightarrow> string \<Rightarrow> session_entry list \<Rightarrow> string
     \<Rightarrow> token_pair \<times> session_entry list" where
  "issuePair sg now tid_a tid_r reg a =
     (\<lparr>accessToken = sg (access_claims a now tid_a),
       refreshToken = sg (refresh_claims a now tid_r),
       tokenType = ''Bearer'',
       expiresIn = ''15m'',
       refreshExpiresIn = ''7d''\<rparr>,
      sr_register reg a tid_r now)"

text \<open>
  Modelled from the spec: \<open>rotate(refreshToken)\<close> (section 4.3), "verifies
  signature/expiry, then asks Session Registry whether this refresh-token id is still
  active; fails with TokenRevoked if not; on success marks the old id revoked and
  issues a brand-new pair bound to the same account". One call, run on its own.
\<close>

definition rotate_refresh ::
  "(token_claims \<Rightarrow> string) \<Rightarrow> (string \<Rightarrow> token_claims option) \<Rightarrow> nat \<Rightarrow> string \<Rightarrow> string
     \<Rightarrow> session_entry list \<Rightarrow> string \<Rightarrow> (token_error + token_pair) \<times> session_entry list" where
  "rotate_refresh sg vf now tid_a tid_r reg t =
     (case vf t of
        None \<Rightarrow> (Inl TokenInvalid, reg)
      | Some c \<Rightarrow>
          if expires_at c \<le> now then (Inl TokenExpired, reg)
          else if \<not> isActive reg (token_id c) then (Inl TokenRevoked, reg)
          else (case issuePair sg now tid_a tid_r (revoke reg (token_id c)) (subject c) of
                  (p, reg') \<Rightarrow> (Inr p, reg')))"

subsection \<open>OTP Manager\<close>

text \<open>Modelled from the spec: the intent tag, \<open>register | reset_password\<close> (section 3).\<close>

datatype intent = Register | ResetPassword

text \<open>
  Modelled from the spec: the OTP record of section 3, "owning account identifier,
  intent tag, 6-digit numeric code (stored as a salted hash), issuance timestamp,
  expiry timestamp, consumed flag, attempt counter", and the mark of a record
  "superseded (invalidated) by a newer OTP".
\<close>

record otp_record =
  owner :: string
  otp_intent :: intent
  code_hash :: string
  otp_issued_at :: nat
  otp_expires_at :: nat
  consumed :: bool
  attempts :: nat
  superseded :: bool

text \<open>Modelled from the spec: the OTP failures of section 7.\<close>

datatype otp_error = OtpNotFound | OtpExpired | OtpMismatch | OtpExhausted

text \<open>
  Modelled from the spec: the lifetime of an OTP, "fixed TTL, e.g. 10 minutes"
  (section 3), in seconds.
\<close>

definition otp_ttl :: nat where
  "otp_ttl = 10 * 60"

text \<open>
  Modelled from the spec: the "fixed limit (e.g. 5)" that the attempt counter must not
  exceed (section 4.2).
\<close>

definition otp_attempt_limit :: nat where
  "otp_attempt_limit = 5"

text \<open>
  Modelled from the spec: a record of (account, intent) that is neither consumed nor
  superseded, the record that \<open>verify\<close> looks up.
\<close>

definition pending :: "string \<Rightarrow> intent \<Rightarrow> otp_record \<Rightarrow> bool" where
  "pending a i r = (owner r = a \<and> otp_intent r = i \<and> \<not> consumed r \<and> \<not> superseded r)"

text \<open>Modelled from the spec: a record "past TTL" at the time \<open>now\<close> (section 4.2).\<close>

definition otp_expired :: "nat \<Rightarrow> otp_record \<Rightarrow> bool" where
  "otp_expired now r = (otp_expires_at r \<le> now)"


text \<open>
  Modelled from the spec: supersession, "issuing a new OTP for (account, intent)
  invalidates all prior OTPs for that exact (account, intent)" (section 8): every
  record of the pair is marked, the active one among them.
\<close>

definition supersede :: "string \<Rightarrow> intent \<Rightarrow> otp_record \<Rightarrow> otp_record" where
  "supersede a i r = (if owner r = a \<and> otp_intent r = i then r\<lparr>superseded := True\<rparr> else r)"

text \<open>
  Modelled from the spec: \<open>issue(accountId, intent)\<close> (section 4.2), "generates a
  cryptographically random 6-digit code, hashes it, supersedes any prior active record
  for (accountId, intent), persists the new record with TTL, and returns the plaintext
  code". The random code is the argument \<open>code\<close>, \<open>h\<close> is the salted hash. The store
  keeps its records in the order of issue.
\<close>

definition issue ::
  "(string \<Rightarrow> string) \<Rightarrow> nat \<Rightarrow> string \<Rightarrow> otp_record list \<Rightarrow> string \<Rightarrow> intent
     \<Rightarrow> otp_record list \<times> string" where
  "issue h now code st a i =
     (map (supersede a i) st @
        [\<lparr>owner = a, otp_intent = i, code_hash = h code, otp_issued_at = now,
          otp_expires_at = now + otp_ttl, consumed = False, attempts = 0,
          superseded = False\<rparr>],
      code)"

text \<open>Modelled from the spec: the position of the first record that satisfies \<open>P\<close>.\<close>

fun lookup_idx :: "('a \<Rightarrow> bool) \<Rightarrow> 'a list \<Rightarrow> nat option" where
  "lookup_idx P [] = None"
| "lookup_idx P (x # xs) = (if P x then Some 0 else map_option Suc (lookup_idx P xs))"

text \<open>
  Modelled from the spec: \<open>verify(accountId, intent, submittedCode)\<close> (section 4.2),
  "fails with OtpNotFound if no active record exists; fails with OtpExpired if past
  TTL; fails with OtpExhausted if attempt counter exceeds a fixed limit, regardless of
  correctness; otherwise compares hashes. On mismatch, increments attempt counter and
  fails with OtpMismatch. On match, marks consumed and succeeds". The record looked up
  is the one that is neither consumed nor superseded; its expiry is the second check.
\<close>

definition verify ::
  "(string \<Rightarrow> string) \<Rightarrow> nat \<Rightarrow> otp_record list \<Rightarrow> string \<Rightarrow> intent \<Rightarrow> string
     \<Rightarrow> (otp_error + unit) \<times> otp_record list" where
  "verify h now st a i submittedCode =
     (case lookup_idx (pending a i) st of
        None \<Rightarrow> (Inl OtpNotFound, st)
      | Some k \<Rightarrow>
          (let r = st ! k in
           if otp_expired now r then (Inl OtpExpired, st)
           else if otp_attempt_limit < attempts r then (Inl OtpExhausted, st)
           else if h submittedCode = code_hash r then (Inr (), st[k := r\<lparr>consumed := True\<rparr>])
           else (Inl OtpMismatch, st[k := r\<lparr>attempts := attempts r + 1\<rparr>])))"

text \<open>
  Modelled from the spec: \<open>resend(accountId, intent)\<close> (section 4.2), "equivalent to
  issue, explicitly superseding the previous code".
\<close>

definition resend ::
  "(string \<Rightarrow> string) \<Rightarrow> nat \<Rightarrow> string \<Rightarrow> otp_record list \<Rightarrow> string \<Rightarrow> intent
     \<Rightarrow> otp_record list \<times> string" where
  "resend h now code st a i = issue h now code st a i"

text \<open>
  Modelled from the spec: the calls a client of the OTP Manager can make (section 4.2),
  each with the time of the call and, for \<open>issue\<close> and \<open>resend\<close>, the random code.
\<close>

datatype otp_op =
    Issue nat string string intent
  | Verify nat string intent string
  | Resend nat string string intent

text \<open>Modelled from the spec: the store after one call of the OTP Manager.\<close>

fun otp_step :: "(string \<Rightarrow> string) \<Rightarrow> otp_record list \<Rightarrow> otp_op \<Rightarrow> otp_record list" where
  "otp_step h st (Issue now code a i) = fst (issue h now code st a i)"
| "otp_step h st (Verify now a i code) = snd (verify h now st a i code)"
| "otp_step h st (Resend now code a i) = fst (resend h now code st a i)"

text \<open>Modelled from the spec: the store after a sequence of calls, in order.\<close>

definition otp_run :: "(string \<Rightarrow> string) \<Rightarrow> otp_op list \<Rightarrow> otp_record list \<Rightarrow> otp_record list" where
  "otp_run h ops st = foldl (otp_step h) st ops"


text \<open>
  Modelled from the spec: the calls that issue, for (account, intent), a code with the
  same hash as the code \<open>c\<close> (the same digits issued again).
\<close>

fun reissues :: "(string \<Rightarrow> string) \<Rightarrow> string \<Rightarrow> intent \<Rightarrow> string \<Rightarrow> otp_op \<Rightarrow> bool" where
  "reissues h a i c (Issue now code a' i') = (a' = a \<and> i' = i \<and> h code = h c)"
| "reissues h a i c (Verify now a' i' code) = False"
| "reissues h a i c (Resend now code a' i') = (a' = a \<and> i' = i \<and> h code = h c)"

subsection \<open>Credential Store and the two enumeration-sensitive flows\<close>

text \<open>
  Modelled from the spec: the profile fields of an account, "first/last name, phone,
  company - optional" (section 3).
\<close>

record profile_fields =
  first_name :: string
  last_name :: string
  phone :: string
  company :: "string option"

text \<open>
  Modelled from the spec: the account record of section 3, "identifier (unique,
  case-normalized string), password hash + salt, verification flag, profile fields".
\<close>

record account =
  acct_identifier :: string
  password_hash :: string
  salt :: string
  verified :: bool
  profile :: profile_fields

text \<open>Modelled from the spec: the lower-case form of an ASCII letter.\<close>

definition lower_char :: "char \<Rightarrow> char" where
  "lower_char c =
     (case map_of (zip ''ABCDEFGHIJKLMNOPQRSTUVWXYZ'' ''abcdefghijklmnopqrstuvwxyz'') c of
        Some l \<Rightarrow> l
      | None \<Rightarrow> c)"

text \<open>
  Modelled from the spec: case normalisation of an identifier, "case-normalized string"
  (section 3).
\<close>

definition normalize :: "string \<Rightarrow> string" where
  "normalize s = map lower_char s"

text \<open>
  Modelled from the spec: \<open>find(identifier)\<close> of the Credential Store (section 4.1),
  "account or NotFound", compared case-insensitively.
\<close>

definition find_account :: "account list \<Rightarrow> string \<Rightarrow> account option" where
  "find_account cs ident = List.find (\<lambda>a. normalize (acct_identifier a) = normalize ident) cs"

text \<open>
  Modelled from the spec: \<open>passwordMatches(identifier, plaintext)\<close> (section 4.1),
  a comparison against the stored salted hash; \<open>kdf\<close> is the slow hash.
\<close>

definition passwordMatches :: "(string \<Rightarrow> string \<Rightarrow> string) \<Rightarrow> account list \<Rightarrow> string \<Rightarrow> string \<Rightarrow> bool" where
  "passwordMatches kdf cs ident plaintext =
     (case find_account cs ident of
        None \<Rightarrow> False
      | Some a \<Rightarrow> kdf (salt a) plaintext = password_hash a)"

text \<open>Modelled from the spec: the shared state of the service (section 5).\<close>

record service_state =
  accounts :: "account list"
  otps :: "otp_record list"
  sessions :: "session_entry list"

text \<open>Modelled from the spec: the two failures of the login flow (section 4.5).\<close>

datatype login_error = InvalidCredentials | AccountNotVerified

text \<open>
  Modelled from the spec: the login response of section 6,
  \<open>{accessToken, refreshToken, tokenType, expiresIn, refreshExpiresIn, user}\<close>.
\<close>

record login_response =
  tokens :: token_pair
  user :: profile_fields

text \<open>
  Modelled from the spec: the login flow (section 4.5), "requires Verified account;
  Credential Store passwordMatches; on success Token Service issuePair. Fails with
  InvalidCredentials (identifier/password mismatch, deliberately not distinguishing
  which) or AccountNotVerified".
\<close>

definition login ::
  "(string \<Rightarrow> string \<Rightarrow> string) \<Rightarrow> (token_claims \<Rightarrow> string) \<Rightarrow> nat \<Rightarrow> string \<Rightarrow> string
     \<Rightarrow> service_state \<Rightarrow> string \<Rightarrow> string \<Rightarrow> (login_error + login_response) \<times> service_state" where
  "login kdf sg now tid_a tid_r st ident plaintext =
     (case find_account (accounts st) ident of
        None \<Rightarrow> (Inl InvalidCredentials, st)
      | Some a \<Rightarrow>
          if \<not> verified a then (Inl AccountNotVerified, st)
          else if \<not> passwordMatches kdf (accounts st) ident plaintext then (Inl InvalidCredentials, st)
          else (case issuePair sg now tid_a tid_r (sessions st) (acct_identifier a) of
                  (p, reg') \<Rightarrow> (Inr \<lparr>tokens = p, user = profile a\<rparr>, st\<lparr>sessions := reg'\<rparr>)))"




subsection \<open>Vocabulary of the proofs\<close>


text \<open>
  An invariant of the OTP store used below: no record still pending for
  (account, intent) carries the code hash \<open>x\<close>.
\<close>

definition hash_avoided :: "string \<Rightarrow> intent \<Rightarrow> string \<Rightarrow> otp_record list \<Rightarrow> bool" where
  "hash_avoided a i x st = (\<forall>r \<in> set st. pending a i r \<longrightarrow> code_hash r \<noteq> x)"

section \<open>Properties of \<open>fakeAuth\<close>\<close>

lemma falsy_simps [simp]:
  "falsy None" "falsy (Some s) = (s = [])"
  by (simp_all add: falsy_def)

text \<open>
  Claim C8. For every request, \<open>fakeAuth\<close> answers 401 with
  \<open>{error: "No token provided"}\<close> exactly when the authorization header is absent in
  the sense of the code's test \<open>!token\<close> (undefined, or the empty string); it answers
  403 with \<open>{error: "Invalid token"}\<close> exactly when the header is present (not falsy)
  and differs from \<open>FAKE_TOKEN_123\<close>; it calls \<open>next()\<close> exactly when the header equals
  \<open>FAKE_TOKEN_123\<close>; and these three are the only outcomes.
\<close>

theorem fakeAuth_outcomes:
  "(fakeAuth req = Responded 401 (JObject [(''error'', JString ''No token provided'')])
      \<longleftrightarrow> falsy (headers req ''authorization''))
   \<and> (fakeAuth req = Responded 403 (JObject [(''error'', JString ''Invalid token'')])
      \<longleftrightarrow> (\<not> falsy (headers req ''authorization'')
           \<and> headers req ''authorization'' \<noteq> Some ''FAKE_TOKEN_123''))
   \<and> (fakeAuth req = NextCalled
      \<longleftrightarrow> headers req ''authorization'' = Some ''FAKE_TOKEN_123'')
   \<and> fakeAuth req \<in>
        {Responded 401 (JObject [(''error'', JString ''No token provided'')]),
         Responded 403 (JObject [(''error'', JString ''Invalid token'')]),
         NextCalled}"
  by (cases "headers req ''authorization''") (auto simp: fakeAuth_def Let_def)

theorem fakeAuth_outcomes_witness:
  "fakeAuth \<lparr>headers = (\<lambda>h. None), requestId = None, req_method = ''GET'',
      originalUrl = ''/'', ip = None\<rparr>
     = Responded 401 (JObject [(''error'', JString ''No token provided'')])
   \<and> fakeAuth \<lparr>headers = (\<lambda>h. if h = ''authorization'' then Some ''Bearer x'' else None),
      requestId = None, req_method = ''GET'', originalUrl = ''/'', ip = None\<rparr>
     = Responded 403 (JObject [(''error'', JString ''Invalid token'')])
   \<and> fakeAuth \<lparr>headers = (\<lambda>h. if h = ''authorization'' then Some ''FAKE_TOKEN_123'' else None),
      requestId = None, req_method = ''GET'', originalUrl = ''/'', ip = None\<rparr>
     = NextCalled"
  using
    fakeAuth_outcomes [of "\<lparr>headers = (\<lambda>h. None), requestId = None, req_method = ''GET'',
      originalUrl = ''/'', ip = None\<rparr>"]
    fakeAuth_outcomes [of "\<lparr>headers = (\<lambda>h. if h = ''authorization'' then Some ''Bearer x'' else None),
      requestId = None, req_method = ''GET'', originalUrl = ''/'', ip = None\<rparr>"]
    fakeAuth_outcomes [of "\<lparr>headers = (\<lambda>h. if h = ''authorization'' then Some ''FAKE_TOKEN_123'' else None),
      requestId = None, req_method = ''GET'', originalUrl = ''/'', ip = None\<rparr>"]
  by simp

lemma fakeAuth_request_with_authorization:
  "fakeAuth (request_with_authorization (Some t)) = NextCalled \<longleftrightarrow> t = ''FAKE_TOKEN_123''"
  by (auto simp: fakeAuth_def request_with_authorization_def Let_def)

text \<open>
  Claim C1 as stated does not hold of \<open>fakeAuth\<close>: it accepts the token
  \<open>FAKE_TOKEN_123\<close> at every time, so for no signature check \<open>vf\<close> does it accept
  exactly the tokens that \<open>verifyAccess\<close> (signature and expiry) accepts: at the expiry
  time of the accepted token \<open>verifyAccess\<close> fails with \<open>TokenExpired\<close>.
\<close>

theorem fakeAuth_expiry_counterexample:
  "fakeAuth (request_with_authorization (Some ''FAKE_TOKEN_123'')) = NextCalled
   \<and> \<not> (\<exists>vf. \<forall>now t. (fakeAuth (request_with_authorization (Some t)) = NextCalled)
                        = (\<exists>a. verifyAccess vf now t = Inr a))"
proof
  show "fakeAuth (request_with_authorization (Some ''FAKE_TOKEN_123'')) = NextCalled"
    by (simp add: fakeAuth_request_with_authorization)
next
  show "\<not> (\<exists>vf. \<forall>now t. (fakeAuth (request_with_authorization (Some t)) = NextCalled)
                        = (\<exists>a. verifyAccess vf now t = Inr a))"
  proof
    assume "\<exists>vf. \<forall>now t. (fakeAuth (request_with_authorization (Some t)) = NextCalled)
                        = (\<exists>a. verifyAccess vf now t = Inr a)"
    then obtain vf where same: "\<And>now t. (fakeAuth (request_with_authorization (Some t)) = NextCalled)
                        = (\<exists>a. verifyAccess vf now t = Inr a)"
      by blast
    from same [of "''FAKE_TOKEN_123''" 0] obtain a where "verifyAccess vf 0 ''FAKE_TOKEN_123'' = Inr a"
      by (auto simp: fakeAuth_request_with_authorization)
    then obtain c where c: "vf ''FAKE_TOKEN_123'' = Some c"
      by (auto simp: verifyAccess_def split: option.splits)
    then have "verifyAccess vf (expires_at c) ''FAKE_TOKEN_123'' = Inl TokenExpired"
      by (simp add: verifyAccess_def)
    with same [of "''FAKE_TOKEN_123''" "expires_at c"] show False
      by (simp add: fakeAuth_request_with_authorization)
  qed
qed

text \<open>
  Claim C1, amended. The outcome of \<open>fakeAuth\<close> is a function of the authorization
  header alone (no session state and no clock enter it): it hands over with \<open>next()\<close>
  exactly for the fixed token \<open>FAKE_TOKEN_123\<close>, without any account identifier, and
  every other request fails, with 401 \<open>No token provided\<close> when the header is missing
  and with 403 \<open>Invalid token\<close> otherwise. There is no expiry check.
\<close>

theorem fakeAuth_header_only:
  "(headers r ''authorization'' = headers r' ''authorization'' \<longrightarrow> fakeAuth r = fakeAuth r')
   \<and> (fakeAuth r = NextCalled \<longleftrightarrow> headers r ''authorization'' = Some ''FAKE_TOKEN_123'')
   \<and> (headers r ''authorization'' \<noteq> Some ''FAKE_TOKEN_123'' \<longrightarrow>
        fakeAuth r = (if falsy (headers r ''authorization'')
                      then Responded 401 (JObject [(''error'', JString ''No token provided'')])
                      else Responded 403 (JObject [(''error'', JString ''Invalid token'')])))"
  by (auto simp: fakeAuth_def Let_def)

theorem fakeAuth_header_only_witness:
  "fakeAuth \<lparr>headers = (\<lambda>name. if name = ''authorization'' then Some ''FAKE_TOKEN_123'' else None),
       requestId = Some ''r-2'', req_method = ''POST'', originalUrl = ''/orders'', ip = Some ''10.0.0.7''\<rparr>
     = fakeAuth (request_with_authorization (Some ''FAKE_TOKEN_123''))
   \<and> fakeAuth (request_with_authorization (Some ''FAKE_TOKEN_123'')) = NextCalled
   \<and> fakeAuth (request_with_authorization (Some ''stale-token''))
       = Responded 403 (JObject [(''error'', JString ''Invalid token'')])"
  using
    fakeAuth_header_only [of
      "\<lparr>headers = (\<lambda>name. if name = ''authorization'' then Some ''FAKE_TOKEN_123'' else None),
       requestId = Some ''r-2'', req_method = ''POST'', originalUrl = ''/orders'', ip = Some ''10.0.0.7''\<rparr>"
      "request_with_authorization (Some ''FAKE_TOKEN_123'')"]
    fakeAuth_header_only [of "request_with_authorization (Some ''FAKE_TOKEN_123'')"
      "request_with_authorization (Some ''FAKE_TOKEN_123'')"]
    fakeAuth_header_only [of "request_with_authorization (Some ''stale-token'')"
      "request_with_authorization (Some ''stale-token'')"]
  by (simp add: request_with_authorization_def)

section \<open>The CORS origin callback\<close>

lemma allowedOrigins_example: "allowedOrigins (Some ''https://a.example, https://b.example'') =
       [''https://a.example'', ''https://b.example'']"
  by code_simp

lemma cors_origin_blocked_example: "cors_origin None (Some ''http://evil.example'') =
       ([LoggerWarn ''CORS blocked request'' (JObject [(''origin'', JString ''http://evil.example'')])],
        NotAllowed ''Not allowed by CORS'')"
  by code_simp

lemma cors_origin_default_example: "cors_origin None (Some ''http://localhost:3000'') = ([], Allowed)"
  by code_simp


text \<open>
  Claim C10. The CORS origin callback accepts every request without an \<open>Origin\<close>
  (undefined or, for the code's test \<open>!origin\<close>, empty); for a request with an origin
  it accepts exactly when the origin is in the configured list, and otherwise calls
  back with the error \<open>Not allowed by CORS\<close>. The configured list is
  \<open>ALLOWED_ORIGINS\<close>, split at commas and trimmed, when the variable is set (to a
  non-empty string), and otherwise the default list of the six localhost origins and
  \<open>https://oms-ims.onrender.com\<close>.
\<close>

theorem cors_origin_decision:
  "cors_origin env None = ([], Allowed)
   \<and> cors_origin env (Some []) = ([], Allowed)
   \<and> (snd (cors_origin env (Some (c # og))) = Allowed \<longleftrightarrow> c # og \<in> set (allowedOrigins env))
   \<and> snd (cors_origin env (Some (c # og))) =
        (if c # og \<in> set (allowedOrigins env) then Allowed else NotAllowed ''Not allowed by CORS'')
   \<and> allowedOrigins None = default_origins
   \<and> allowedOrigins (Some []) = default_origins
   \<and> allowedOrigins (Some (d # s)) = map trim (split_on CHR '','' (d # s))
   \<and> default_origins =
        [''http://localhost:4007'', ''http://localhost:4040'', ''http://localhost:8080'',
         ''http://localhost:3000'', ''http://localhost:3001'', ''http://localhost:4015'',
         ''https://oms-ims.onrender.com'']"
proof -
  have dec: "snd (cors_origin env (Some (c # og))) =
      (if c # og \<in> set (allowedOrigins env) then Allowed else NotAllowed ''Not allowed by CORS'')"
    by (simp add: cors_origin_def)
  then have "snd (cors_origin env (Some (c # og))) = Allowed \<longleftrightarrow> c # og \<in> set (allowedOrigins env)"
    by simp
  moreover have "cors_origin env None = ([], Allowed)" "cors_origin env (Some []) = ([], Allowed)"
    by (simp_all add: cors_origin_def)
  moreover have "allowedOrigins None = default_origins" "allowedOrigins (Some []) = default_origins"
      "allowedOrigins (Some (d # s)) = map trim (split_on CHR '','' (d # s))"
    by (simp_all add: allowedOrigins_def)
  ultimately show ?thesis using dec by (simp add: default_origins_def)
qed

theorem cors_origin_decision_witness:
  "cors_origin None (Some ''http://localhost:3000'') = ([], Allowed)
   \<and> cors_origin None (Some ''http://evil.example'') =
       ([LoggerWarn ''CORS blocked request'' (JObject [(''origin'', JString ''http://evil.example'')])],
        NotAllowed ''Not allowed by CORS'')
   \<and> allowedOrigins (Some ''https://a.example, https://b.example'') =
       [''https://a.example'', ''https://b.example'']
   \<and> snd (cors_origin (Some ''https://a.example, https://b.example'') (Some ''https://b.example'')) = Allowed
   \<and> snd (cors_origin (Some ''https://a.example, https://b.example'') (Some ''http://localhost:3000''))
       = NotAllowed ''Not allowed by CORS''"
proof -
  note listed = cors_origin_decision [of "Some ''https://a.example, https://b.example''"
      "CHR ''h''" "''ttps://b.example''"]
  note unlisted = cors_origin_decision [of "Some ''https://a.example, https://b.example''"
      "CHR ''h''" "''ttp://localhost:3000''"]
  from listed unlisted allowedOrigins_example cors_origin_blocked_example
    cors_origin_default_example show ?thesis by simp
qed

section \<open>The 404 handler and the documented endpoints\<close>

text \<open>
  Claim C9. Whenever the 404 handler runs (Express runs it for a request that no
  earlier route has answered), it responds with status 404 and a body whose \<open>error\<close>
  is \<open>Route not found\<close> and whose \<open>availableEndpoints\<close> is the fixed list of exactly
  these twelve paths under the service prefix: docs, health, profile, refresh-token,
  register, register_auth, login, reset_pass_user_auth, reset_pass_otp_auth,
  reset_password, resend_otp, logout.
\<close>

theorem notFoundHandler_response:
  "(\<exists>body. snd (notFoundHandler cfg req) = Responded 404 body
       \<and> jget body ''error'' = JString ''Route not found''
       \<and> jget body ''availableEndpoints'' =
           JArray (map (\<lambda>suffix. JString (''/'' @ routes_user cfg @ suffix))
             [''/docs'', ''/health'', ''/profile'', ''/refresh-token'', ''/register'',
              ''/register_auth'', ''/login'', ''/reset_pass_user_auth'',
              ''/reset_pass_otp_auth'', ''/reset_password'', ''/resend_otp'', ''/logout'']))
   \<and> length (availableEndpoints cfg) = 12
   \<and> distinct (availableEndpoints cfg)"
proof (intro conjI exI)
  show "snd (notFoundHandler cfg req) = Responded 404
     (JObject
          [(''error'', JString ''Route not found''),
           (''message'', JString ''The requested endpoint does not exist''),
           (''requestId'', json_of (requestId req)),
           (''availableEndpoints'', JArray (map JString (availableEndpoints cfg)))])"
    by (simp add: notFoundHandler_def)
  show "jget (JObject
          [(''error'', JString ''Route not found''),
           (''message'', JString ''The requested endpoint does not exist''),
           (''requestId'', json_of (requestId req)),
           (''availableEndpoints'', JArray (map JString (availableEndpoints cfg)))]) ''error''
       = JString ''Route not found''"
    by simp
  show "jget (JObject
          [(''error'', JString ''Route not found''),
           (''message'', JString ''The requested endpoint does not exist''),
           (''requestId'', json_of (requestId req)),
           (''availableEndpoints'', JArray (map JString (availableEndpoints cfg)))])
         ''availableEndpoints'' =
           JArray (map (\<lambda>suffix. JString (''/'' @ routes_user cfg @ suffix))
             [''/docs'', ''/health'', ''/profile'', ''/refresh-token'', ''/register'',
              ''/register_auth'', ''/login'', ''/reset_pass_user_auth'',
              ''/reset_pass_otp_auth'', ''/reset_password'', ''/resend_otp'', ''/logout''])"
    by (simp add: availableEndpoints_def route_path_def)
  show "length (availableEndpoints cfg) = 12"
    by (simp add: availableEndpoints_def)
  show "distinct (availableEndpoints cfg)"
    by (simp add: availableEndpoints_def route_path_def)
qed

theorem notFoundHandler_response_witness:
  "snd (notFoundHandler
      \<lparr>port_user = ''4001'', routes_user = ''users'', rateLimit_windowMs = 900000, rateLimit_max = 100\<rparr>
      \<lparr>headers = (\<lambda>name. None), requestId = Some ''r-1'', req_method = ''GET'',
        originalUrl = ''/nowhere'', ip = Some ''127.0.0.1''\<rparr>)
   = Responded 404
       (JObject
         [(''error'', JString ''Route not found''),
          (''message'', JString ''The requested endpoint does not exist''),
          (''requestId'', JString ''r-1''),
          (''availableEndpoints'', JArray
            [JString ''/users/docs'', JString ''/users/health'', JString ''/users/profile'',
             JString ''/users/refresh-token'', JString ''/users/register'',
             JString ''/users/register_auth'', JString ''/users/login'',
             JString ''/users/reset_pass_user_auth'', JString ''/users/reset_pass_otp_auth'',
             JString ''/users/reset_password'', JString ''/users/resend_otp'',
             JString ''/users/logout''])])"
  using notFoundHandler_response
    [of "\<lparr>port_user = ''4001'', routes_user = ''users'', rateLimit_windowMs = 900000, rateLimit_max = 100\<rparr>"
        "\<lparr>headers = (\<lambda>name. None), requestId = Some ''r-1'', req_method = ''GET'',
        originalUrl = ''/nowhere'', ip = Some ''127.0.0.1''\<rparr>"]
  by (simp add: notFoundHandler_def availableEndpoints_def route_path_def json_of_def)

subsection \<open>The documented endpoints\<close>

lemma strip_prefix_append: "strip_prefix xs (xs @ ys) = Some ys"
  by (induction xs) auto

lemma api_url_split: "api_url cfg s = api_url cfg [] @ s"
  by (simp add: api_url_def)

lemma contract_of_entry:
  "contract_of cfg (JObject ((''url'', JString (api_url cfg s)) # (''method'', JString m) # rest)) =
     Some (m, s, fields_where True (jget (JObject rest) ''parameters''),
                 fields_where False (jget (JObject rest) ''parameters''))"
  unfolding contract_of_def
  by (subst api_url_split) (simp add: strip_prefix_append)

lemma documented_list:
  "documented_endpoints cfg ts = map Some
    [(''GET'', ''/health'', {}, {}),
     (''GET'', ''/profile'', {''email''}, {}),
     (''POST'', ''/refresh-token'', {''refreshToken''}, {}),
     (''POST'', ''/resend_otp'', {''email'', ''event''}, {}),
     (''POST'', ''/register'',
        {''email'', ''phone'', ''password'', ''first_name'', ''last_name''}, {''companyName''}),
     (''POST'', ''/register_auth'', {''email'', ''otp''}, {}),
     (''POST'', ''/login'', {''email'', ''password''}, {}),
     (''POST'', ''/reset_pass_user_auth'', {''email''}, {}),
     (''POST'', ''/reset_pass_otp_auth'', {''email'', ''otp''}, {}),
     (''POST'', ''/reset_password'', {''email'', ''newPassword''}, {}),
     (''POST'', ''/logout'', {''email''}, {})]"
  unfolding documented_endpoints_def apiDocumentation_def
  by (simp add: contract_of_entry fields_where_def param_def)

lemma health_not_in_spec: "(''GET'', ''/health'', {}, {}) \<notin> set spec_contract"
  by (simp add: spec_contract_def)

text \<open>
  Claim C2 as stated does not hold: the endpoint set is not the ten endpoints of the
  specification's contract. \<open>GET /health\<close> is registered by \<open>server.js\<close> itself and
  is documented, and it is not in the contract.
\<close>

theorem endpoint_set_counterexample:
  "Some (''GET'', ''/health'', {}, {}) \<in> set (documented_endpoints
       \<lparr>port_user = ''4001'', routes_user = ''users'', rateLimit_windowMs = 900000, rateLimit_max = 100\<rparr>
       ''2025-01-01T00:00:00.000Z'')
   \<and> (''GET'', ''/users/health'') \<in> set (own_routes
       \<lparr>port_user = ''4001'', routes_user = ''users'', rateLimit_windowMs = 900000, rateLimit_max = 100\<rparr>)
   \<and> (''GET'', ''/health'', {}, {}) \<notin> set spec_contract
   \<and> set (documented_endpoints
       \<lparr>port_user = ''4001'', routes_user = ''users'', rateLimit_windowMs = 900000, rateLimit_max = 100\<rparr>
       ''2025-01-01T00:00:00.000Z'') \<noteq> Some ` set spec_contract"
proof -
  let ?cfg = "\<lparr>port_user = ''4001'', routes_user = ''users'', rateLimit_windowMs = 900000,
      rateLimit_max = 100\<rparr>"
  let ?ts = "''2025-01-01T00:00:00.000Z''"
  have doc: "Some (''GET'', ''/health'', {}, {}) \<in> set (documented_endpoints ?cfg ?ts)"
    unfolding documented_list by simp
  have own: "(''GET'', ''/users/health'') \<in> set (own_routes ?cfg)"
    by (simp add: own_routes_def route_path_def)
  have "Some (''GET'', ''/health'', {}, {}) \<notin> Some ` set spec_contract"
    using health_not_in_spec by blast
  with doc have "set (documented_endpoints ?cfg ?ts) \<noteq> Some ` set spec_contract"
    by metis
  with doc own health_not_in_spec show ?thesis by blast
qed

text \<open>
  Claim C2, amended. The documented endpoints are the ten of the specification's
  contract, each with exactly the required and optional fields the specification lists
  (\<open>companyName\<close> optional on register), together with \<open>GET /health\<close>, which has no
  fields: eleven in all. The 404 handler lists the paths of these eleven and
  \<open>/docs\<close>. \<open>server.js\<close> registers \<open>GET /health\<close>, \<open>GET /\<close> and \<open>GET /docs\<close>
  itself.
\<close>

theorem documented_endpoint_contract:
  "set (documented_endpoints cfg ts) = Some ` insert (''GET'', ''/health'', {}, {}) (set spec_contract)
   \<and> length (documented_endpoints cfg ts) = 11
   \<and> set (availableEndpoints cfg) =
       route_path cfg ` insert ''/docs'' ((\<lambda>(m, path, req, opt). path) `
          insert (''GET'', ''/health'', {}, {}) (set spec_contract))
   \<and> own_routes cfg =
       [(''GET'', route_path cfg ''/health''), (''GET'', ''/''), (''GET'', route_path cfg ''/docs'')]"
proof (intro conjI)
  show "set (documented_endpoints cfg ts) =
      Some ` insert (''GET'', ''/health'', {}, {}) (set spec_contract)"
    unfolding documented_list spec_contract_def by auto
  show "length (documented_endpoints cfg ts) = 11"
    unfolding documented_list by simp
  show "set (availableEndpoints cfg) =
       route_path cfg ` insert ''/docs'' ((\<lambda>(m, path, req, opt). path) `
          insert (''GET'', ''/health'', {}, {}) (set spec_contract))"
    unfolding availableEndpoints_def spec_contract_def by auto
  show "own_routes cfg =
       [(''GET'', route_path cfg ''/health''), (''GET'', ''/''), (''GET'', route_path cfg ''/docs'')]"
    by (simp add: own_routes_def)
qed

theorem documented_endpoint_contract_witness:
  "set (documented_endpoints
       \<lparr>port_user = ''4001'', routes_user = ''users'', rateLimit_windowMs = 900000, rateLimit_max = 100\<rparr>
       ''2025-01-01T00:00:00.000Z'')
     = Some ` insert (''GET'', ''/health'', {}, {}) (set spec_contract)
   \<and> length (documented_endpoints
       \<lparr>port_user = ''4001'', routes_user = ''users'', rateLimit_windowMs = 900000, rateLimit_max = 100\<rparr>
       ''2025-01-01T00:00:00.000Z'') = 11"
  using documented_endpoint_contract
    [of "\<lparr>port_user = ''4001'', routes_user = ''users'', rateLimit_windowMs = 900000, rateLimit_max = 100\<rparr>"
        "''2025-01-01T00:00:00.000Z''"]
  by blast

section \<open>Token lifetimes\<close>

lemma issuePair_pair:
  "fst (issuePair sg now tid_a tid_r reg a) =
     \<lparr>accessToken = sg \<lparr>subject = a, issued_at = now, expires_at = now + 15 * 60, token_id = tid_a\<rparr>,
      refreshToken = sg \<lparr>subject = a, issued_at = now, expires_at = now + 7 * 24 * 60 * 60, token_id = tid_r\<rparr>,
      tokenType = ''Bearer'', expiresIn = ''15m'', refreshExpiresIn = ''7d''\<rparr>"
  by (simp add: issuePair_def access_claims_def refresh_claims_def access_ttl_def refresh_ttl_def)

lemma login_pair:
  "fst (login kdf sg now tid_a tid_r st ident pw) = Inr resp \<Longrightarrow>
   \<exists>a. tokens resp = fst (issuePair sg now tid_a tid_r (sessions st) a)"
  by (auto simp: login_def split: option.splits if_splits prod.splits) (metis fst_conv)

lemma rotate_pair:
  "fst (rotate_refresh sg vf now tid_a tid_r reg t) = Inr p \<Longrightarrow>
   \<exists>reg0 a. p = fst (issuePair sg now tid_a tid_r reg0 a)"
  by (auto simp: rotate_refresh_def split: option.splits if_splits prod.splits) (metis fst_conv)

lemma documented_login_response:
  "jget (jget (jget (apiDocumentation cfg ts) ''endpoints'') ''login'') ''response'' =
     JObject
       [(''accessToken'', JString ''JWT access token (15min expiry)''),
        (''refreshToken'', JString ''JWT refresh token (7 days expiry)''),
        (''tokenType'', JString ''Bearer''),
        (''expiresIn'', JString ''15m''),
        (''refreshExpiresIn'', JString ''7d''),
        (''user'', JString ''User profile object'')]"
  by (simp add: apiDocumentation_def)

text \<open>
  Claim C3. Every pair that \<open>issuePair\<close> issues holds an access token whose expiry
  is 15 minutes (900 seconds) after its issue and a refresh token whose expiry is 7 days
  after its issue, and reports token type \<open>Bearer\<close>, \<open>expiresIn\<close> \<open>15m\<close> and
  \<open>refreshExpiresIn\<close> \<open>7d\<close>; every pair returned by a successful login or a
  successful rotation is such a pair; and the login response documented in
  \<open>server.js\<close> carries the same three values, with the two lifetimes named among the
  authentication features.
\<close>

theorem token_pair_ttls:
  "fst (issuePair sg now tid_a tid_r reg a) =
     \<lparr>accessToken = sg \<lparr>subject = a, issued_at = now, expires_at = now + 15 * 60, token_id = tid_a\<rparr>,
      refreshToken = sg \<lparr>subject = a, issued_at = now, expires_at = now + 7 * 24 * 60 * 60, token_id = tid_r\<rparr>,
      tokenType = ''Bearer'', expiresIn = ''15m'', refreshExpiresIn = ''7d''\<rparr>
   \<and> (fst (login kdf sg now tid_a tid_r st ident pw) = Inr resp \<longrightarrow>
        (\<exists>a'. tokens resp = fst (issuePair sg now tid_a tid_r (sessions st) a')))
   \<and> (fst (rotate_refresh sg vf now tid_a tid_r reg t) = Inr p \<longrightarrow>
        (\<exists>reg0 a'. p = fst (issuePair sg now tid_a tid_r reg0 a')))
   \<and> jget (jget (jget (jget (apiDocumentation cfg ts) ''endpoints'') ''login'') ''response'')
        ''tokenType'' = JString ''Bearer''
   \<and> jget (jget (jget (jget (apiDocumentation cfg ts) ''endpoints'') ''login'') ''response'')
        ''expiresIn'' = JString ''15m''
   \<and> jget (jget (jget (jget (apiDocumentation cfg ts) ''endpoints'') ''login'') ''response'')
        ''refreshExpiresIn'' = JString ''7d''
   \<and> jget (jget (apiDocumentation cfg ts) ''authentication'') ''features'' =
        JArray [JString ''Access Token (15min expiry)'', JString ''Refresh Token (7 days expiry)'',
                JString ''HTTP-only Cookies'', JString ''Automatic token refresh'']"
proof (intro conjI impI)
  show "fst (issuePair sg now tid_a tid_r reg a) =
     \<lparr>accessToken = sg \<lparr>subject = a, issued_at = now, expires_at = now + 15 * 60, token_id = tid_a\<rparr>,
      refreshToken = sg \<lparr>subject = a, issued_at = now, expires_at = now + 7 * 24 * 60 * 60, token_id = tid_r\<rparr>,
      tokenType = ''Bearer'', expiresIn = ''15m'', refreshExpiresIn = ''7d''\<rparr>"
    by (rule issuePair_pair)
  show "\<exists>a'. tokens resp = fst (issuePair sg now tid_a tid_r (sessions st) a')"
    if "fst (login kdf sg now tid_a tid_r st ident pw) = Inr resp"
    using that by (rule login_pair)
  show "\<exists>reg0 a'. p = fst (issuePair sg now tid_a tid_r reg0 a')"
    if "fst (rotate_refresh sg vf now tid_a tid_r reg t) = Inr p"
    using that by (rule rotate_pair)
  show "jget (jget (jget (jget (apiDocumentation cfg ts) ''endpoints'') ''login'') ''response'')
        ''tokenType'' = JString ''Bearer''"
    unfolding documented_login_response by simp
  show "jget (jget (jget (jget (apiDocumentation cfg ts) ''endpoints'') ''login'') ''response'')
        ''expiresIn'' = JString ''15m''"
    unfolding documented_login_response by simp
  show "jget (jget (jget (jget (apiDocumentation cfg ts) ''endpoints'') ''login'') ''response'')
        ''refreshExpiresIn'' = JString ''7d''"
    unfolding documented_login_response by simp
  show "jget (jget (apiDocumentation cfg ts) ''authentication'') ''features'' =
        JArray [JString ''Access Token (15min expiry)'', JString ''Refresh Token (7 days expiry)'',
                JString ''HTTP-only Cookies'', JString ''Automatic token refresh'']"
    by (simp add: apiDocumentation_def)
qed


lemma login_example:
  "login (\<lambda>s p. s @ p) subject 100 ''t1'' ''t2''
      \<lparr>accounts = [\<lparr>acct_identifier = ''a@x.com'', password_hash = ''s1pw'', salt = ''s1'',
          verified = True,
          profile = \<lparr>first_name = ''A'', last_name = ''X'', phone = ''1'', company = None\<rparr>\<rparr>],
        otps = [], sessions = []\<rparr> ''A@x.com'' ''pw''
   = (Inr \<lparr>tokens = \<lparr>accessToken = ''a@x.com'', refreshToken = ''a@x.com'', tokenType = ''Bearer'',
              expiresIn = ''15m'', refreshExpiresIn = ''7d''\<rparr>,
           user = \<lparr>first_name = ''A'', last_name = ''X'', phone = ''1'', company = None\<rparr>\<rparr>,
      \<lparr>accounts = [\<lparr>acct_identifier = ''a@x.com'', password_hash = ''s1pw'', salt = ''s1'',
          verified = True,
          profile = \<lparr>first_name = ''A'', last_name = ''X'', phone = ''1'', company = None\<rparr>\<rparr>],
        otps = [],
        sessions = [\<lparr>se_account = ''a@x.com'', se_token_id = ''t2'', se_issued_at = 100,
          revoked = False\<rparr>]\<rparr>)"
  by (simp add: login_def find_account_def passwordMatches_def normalize_def lower_char_def
      issuePair_def access_claims_def refresh_claims_def sr_register_def)

theorem token_pair_ttls_witness:
  "fst (login (\<lambda>s p. s @ p) subject 100 ''t1'' ''t2''
      \<lparr>accounts = [\<lparr>acct_identifier = ''a@x.com'', password_hash = ''s1pw'', salt = ''s1'',
          verified = True,
          profile = \<lparr>first_name = ''A'', last_name = ''X'', phone = ''1'', company = None\<rparr>\<rparr>],
        otps = [], sessions = []\<rparr> ''A@x.com'' ''pw'')
   = Inr \<lparr>tokens = \<lparr>accessToken = ''a@x.com'', refreshToken = ''a@x.com'', tokenType = ''Bearer'',
              expiresIn = ''15m'', refreshExpiresIn = ''7d''\<rparr>,
           user = \<lparr>first_name = ''A'', last_name = ''X'', phone = ''1'', company = None\<rparr>\<rparr>
   \<and> (\<exists>a'. \<lparr>accessToken = ''a@x.com'', refreshToken = ''a@x.com'', tokenType = ''Bearer'',
              expiresIn = ''15m'', refreshExpiresIn = ''7d''\<rparr>
          = fst (issuePair subject 100 ''t1'' ''t2'' [] a'))
   \<and> fst (issuePair subject 100 ''t1'' ''t2'' [] ''a@x.com'') =
       \<lparr>accessToken = subject \<lparr>subject = ''a@x.com'', issued_at = 100, expires_at = 100 + 15 * 60, token_id = ''t1''\<rparr>,
        refreshToken = subject \<lparr>subject = ''a@x.com'', issued_at = 100, expires_at = 100 + 7 * 24 * 60 * 60, token_id = ''t2''\<rparr>,
        tokenType = ''Bearer'', expiresIn = ''15m'', refreshExpiresIn = ''7d''\<rparr>"
proof -
  let ?st = "\<lparr>accounts = [\<lparr>acct_identifier = ''a@x.com'', password_hash = ''s1pw'', salt = ''s1'',
          verified = True,
          profile = \<lparr>first_name = ''A'', last_name = ''X'', phone = ''1'', company = None\<rparr>\<rparr>],
        otps = [], sessions = []\<rparr>"
  let ?resp = "\<lparr>tokens = \<lparr>accessToken = ''a@x.com'', refreshToken = ''a@x.com'', tokenType = ''Bearer'',
              expiresIn = ''15m'', refreshExpiresIn = ''7d''\<rparr>,
           user = \<lparr>first_name = ''A'', last_name = ''X'', phone = ''1'', company = None\<rparr>\<rparr>"
  have ok: "fst (login (\<lambda>s p. s @ p) subject 100 ''t1'' ''t2'' ?st ''A@x.com'' ''pw'') = Inr ?resp"
    by (simp add: login_example)
  note inst = token_pair_ttls [of subject 100 "''t1''" "''t2''" "[]" "''a@x.com''"
      "\<lambda>s p. s @ p" ?st "''A@x.com''" "''pw''" ?resp]
  from inst ok have "\<exists>a'. tokens ?resp = fst (issuePair subject 100 ''t1'' ''t2'' (sessions ?st) a')"
    by blast
  with inst ok show ?thesis by simp
qed


section \<open>The OTP Manager: single use and supersession\<close>

subsection \<open>Positions and filters\<close>

lemma lookup_idx_Some:
  "lookup_idx P xs = Some k \<Longrightarrow> k < length xs \<and> P (xs ! k)"
proof (induction xs arbitrary: k)
  case Nil
  then show ?case by simp
next
  case (Cons x xs)
  show ?case
  proof (cases "P x")
    case True
    with Cons.prems show ?thesis by simp
  next
    case False
    with Cons.prems obtain j where j: "lookup_idx P xs = Some j" "k = Suc j"
      by auto
    with Cons.IH [of j] show ?thesis by simp
  qed
qed

lemma lookup_idx_None: "(lookup_idx P xs = None) = (\<forall>x \<in> set xs. \<not> P x)"
  by (induction xs) auto

lemma filter_update_le:
  "k < length xs \<Longrightarrow> (P y \<Longrightarrow> P (xs ! k)) \<Longrightarrow>
   length (filter P (xs[k := y])) \<le> length (filter P xs)"
proof (induction xs arbitrary: k)
  case Nil
  then show ?case by simp
next
  case (Cons x xs)
  show ?case
  proof (cases k)
    case 0
    with Cons.prems show ?thesis by auto
  next
    case (Suc j)
    with Cons.prems Cons.IH [of j] show ?thesis by auto
  qed
qed

lemma filter_update_empty:
  "length (filter P xs) \<le> 1 \<Longrightarrow> k < length xs \<Longrightarrow> P (xs ! k) \<Longrightarrow> \<not> P y \<Longrightarrow>
   filter P (xs[k := y]) = []"
proof (induction xs arbitrary: k)
  case Nil
  then show ?case by simp
next
  case (Cons x xs)
  show ?case
  proof (cases k)
    case 0
    with Cons.prems show ?thesis by (auto split: if_splits)
  next
    case (Suc j)
    with Cons.prems have "\<not> P x"
      by (auto split: if_splits simp: filter_empty_conv)
    with Suc Cons.prems Cons.IH [of j] show ?thesis by auto
  qed
qed


subsection \<open>Steps of the OTP store\<close>

lemma pending_supersede_same: "\<not> pending a i (supersede a i r)"
  by (auto simp: pending_def supersede_def)

lemma pending_supersede_other:
  "a' \<noteq> a \<or> i' \<noteq> i \<Longrightarrow> pending a' i' (supersede a i r) = pending a' i' r"
  unfolding pending_def supersede_def
  by (cases "owner r = a \<and> otp_intent r = i") auto

lemma pending_supersede_imp: "pending a' i' (supersede a i r) \<Longrightarrow> pending a' i' r"
  by (auto simp: pending_def supersede_def split: if_splits)

lemma code_hash_supersede: "code_hash (supersede a i r) = code_hash r"
  by (simp add: supersede_def)

lemma consumed_supersede: "consumed (supersede a i r) = consumed r"
  by (simp add: supersede_def)

lemma filter_pending_issue_same:
  "length (filter (pending a i) (fst (issue h now code st a i))) = 1"
proof -
  have "filter (pending a i) (map (supersede a i) st) = []"
    by (auto simp: filter_empty_conv pending_supersede_same)
  then show ?thesis by (simp add: issue_def pending_def)
qed

lemma filter_pending_issue_other:
  assumes "a' \<noteq> a \<or> i' \<noteq> i"
  shows "length (filter (pending a' i') (fst (issue h now code st a i))) =
     length (filter (pending a' i') st)"
proof -
  from assms have "filter (pending a' i') (map (supersede a i) st) =
      map (supersede a i) (filter (pending a' i') st)"
    by (simp add: filter_map comp_def pending_supersede_other)
  moreover from assms
  have "\<not> pending a' i' \<lparr>owner = a, otp_intent = i, code_hash = h code, otp_issued_at = now,
          otp_expires_at = now + otp_ttl, consumed = False, attempts = 0, superseded = False\<rparr>"
    by (auto simp: pending_def)
  ultimately show ?thesis by (simp add: issue_def)
qed

lemma filter_pending_issue:
  "length (filter (pending a' i') st) \<le> 1 \<Longrightarrow>
   length (filter (pending a' i') (fst (issue h now code st a i))) \<le> 1"
proof (cases "a' = a \<and> i' = i")
  case True
  then show ?thesis by (simp add: filter_pending_issue_same)
next
  case False
  assume "length (filter (pending a' i') st) \<le> 1"
  moreover from False have "a' \<noteq> a \<or> i' \<noteq> i" by simp
  ultimately show ?thesis by (simp add: filter_pending_issue_other)
qed

text \<open>What \<open>verify\<close> does to the store: nothing, or one record updated in place.\<close>

lemma verify_store:
  "snd (verify h now st a i c) = st \<or>
   (\<exists>k r'. lookup_idx (pending a i) st = Some k \<and> snd (verify h now st a i c) = st[k := r'] \<and>
      (r' = (st ! k)\<lparr>consumed := True\<rparr> \<or> r' = (st ! k)\<lparr>attempts := attempts (st ! k) + 1\<rparr>))"
  by (auto simp: verify_def Let_def split: option.splits)

lemma verify_success:
  "fst (verify h now st a i c) = Inr () \<Longrightarrow>
   \<exists>k. lookup_idx (pending a i) st = Some k \<and> h c = code_hash (st ! k) \<and>
       snd (verify h now st a i c) = st[k := (st ! k)\<lparr>consumed := True\<rparr>]"
  by (auto simp: verify_def Let_def split: option.splits if_splits)

lemma filter_pending_verify:
  "length (filter (pending a' i') (snd (verify h now st a i c))) \<le> length (filter (pending a' i') st)"
proof -
  from verify_store [of h now st a i c] show ?thesis
  proof
    assume "snd (verify h now st a i c) = st"
    then show ?thesis by simp
  next
    assume "\<exists>k r'. lookup_idx (pending a i) st = Some k \<and> snd (verify h now st a i c) = st[k := r'] \<and>
      (r' = (st ! k)\<lparr>consumed := True\<rparr> \<or> r' = (st ! k)\<lparr>attempts := attempts (st ! k) + 1\<rparr>)"
    then obtain k r' where k: "lookup_idx (pending a i) st = Some k"
      and st': "snd (verify h now st a i c) = st[k := r']"
      and r': "r' = (st ! k)\<lparr>consumed := True\<rparr> \<or> r' = (st ! k)\<lparr>attempts := attempts (st ! k) + 1\<rparr>"
      by blast
    from k have "k < length st" by (simp add: lookup_idx_Some)
    moreover from r' have "pending a' i' r' \<Longrightarrow> pending a' i' (st ! k)"
      by (auto simp: pending_def)
    ultimately show ?thesis unfolding st' by (rule filter_update_le)
  qed
qed

lemma filter_pending_step:
  "length (filter (pending a i) st) \<le> 1 \<Longrightarrow>
   length (filter (pending a i) (otp_step h st op)) \<le> 1"
proof (cases op)
  case (Issue now code a' i')
  assume "length (filter (pending a i) st) \<le> 1"
  with filter_pending_issue [of a i st h now code a' i'] Issue show ?thesis
    by simp
next
  case (Verify now a' i' code)
  assume "length (filter (pending a i) st) \<le> 1"
  with filter_pending_verify [of a i h now st a' i' code] Verify show ?thesis by simp
next
  case (Resend now code a' i')
  assume "length (filter (pending a i) st) \<le> 1"
  with filter_pending_issue [of a i st h now code a' i'] Resend show ?thesis
    by (simp add: resend_def)
qed

lemma otp_run_Nil: "otp_run h [] st = st"
  by (simp add: otp_run_def)

lemma otp_run_Cons: "otp_run h (op # ops) st = otp_run h ops (otp_step h st op)"
  by (simp add: otp_run_def)

lemma filter_pending_run:
  "length (filter (pending a i) st) \<le> 1 \<Longrightarrow>
   length (filter (pending a i) (otp_run h ops st)) \<le> 1"
proof (induction ops arbitrary: st)
  case Nil
  then show ?case by (simp add: otp_run_Nil)
next
  case (Cons op ops)
  from Cons.prems have "length (filter (pending a i) (otp_step h st op)) \<le> 1"
    by (rule filter_pending_step)
  then show ?case unfolding otp_run_Cons by (rule Cons.IH)
qed

lemma at_most_one_pending: "length (filter (pending a i) (otp_run h ops [])) \<le> 1"
  by (rule filter_pending_run) simp



subsection \<open>While no newer code is issued for the pair\<close>






subsection \<open>A consumed record stays consumed\<close>

lemma consumed_step:
  assumes "k < length st" and "consumed (st ! k)"
  shows "k < length (otp_step h st op) \<and> consumed (otp_step h st op ! k)"
proof -
  have iss: "k < length (fst (issue h now code st a i)) \<and> consumed (fst (issue h now code st a i) ! k)"
    for now code a i
    using assms by (simp add: issue_def nth_append consumed_supersede)
  have ver: "k < length (snd (verify h now st a i c)) \<and> consumed (snd (verify h now st a i c) ! k)"
    for now a i c
  proof -
    from verify_store [of h now st a i c] show ?thesis
    proof
      assume "snd (verify h now st a i c) = st"
      with assms show ?thesis by simp
    next
      assume "\<exists>j r'. lookup_idx (pending a i) st = Some j \<and>
        snd (verify h now st a i c) = st[j := r'] \<and>
        (r' = (st ! j)\<lparr>consumed := True\<rparr> \<or> r' = (st ! j)\<lparr>attempts := attempts (st ! j) + 1\<rparr>)"
      then obtain j r' where st': "snd (verify h now st a i c) = st[j := r']"
        and r': "r' = (st ! j)\<lparr>consumed := True\<rparr> \<or> r' = (st ! j)\<lparr>attempts := attempts (st ! j) + 1\<rparr>"
        by blast
      from r' assms show ?thesis unfolding st' by (cases "j = k") auto
    qed
  qed
  show ?thesis by (cases op) (simp_all add: iss ver resend_def)
qed

lemma consumed_run:
  "k < length st \<Longrightarrow> consumed (st ! k) \<Longrightarrow>
   k < length (otp_run h ops st) \<and> consumed (otp_run h ops st ! k)"
proof (induction ops arbitrary: st)
  case Nil
  then show ?case by (simp add: otp_run_Nil)
next
  case (Cons op ops)
  from Cons.prems have "k < length (otp_step h st op) \<and> consumed (otp_step h st op ! k)"
    by (rule consumed_step)
  then show ?case unfolding otp_run_Cons using Cons.IH by blast
qed


subsection \<open>While the consumed code is not issued again\<close>

lemma hash_avoided_empty: "filter (pending a i) st = [] \<Longrightarrow> hash_avoided a i x st"
  by (auto simp: hash_avoided_def filter_empty_conv)

lemma hash_avoided_issue:
  assumes "hash_avoided a i x st" and "a \<noteq> a' \<or> i \<noteq> i' \<or> h code \<noteq> x"
  shows "hash_avoided a i x (fst (issue h now code st a' i'))"
  unfolding hash_avoided_def
proof
  fix r
  assume "r \<in> set (fst (issue h now code st a' i'))"
  then consider r0 where "r0 \<in> set st" "r = supersede a' i' r0"
    | "r = \<lparr>owner = a', otp_intent = i', code_hash = h code, otp_issued_at = now,
          otp_expires_at = now + otp_ttl, consumed = False, attempts = 0, superseded = False\<rparr>"
    by (auto simp: issue_def)
  then show "pending a i r \<longrightarrow> code_hash r \<noteq> x"
  proof cases
    case 1
    with assms(1) show ?thesis
      by (auto simp: hash_avoided_def code_hash_supersede dest: pending_supersede_imp)
  next
    case 2
    with assms(2) show ?thesis by (auto simp: pending_def)
  qed
qed

lemma hash_avoided_verify:
  assumes "hash_avoided a i x st"
  shows "hash_avoided a i x (snd (verify h now st a' i' c))"
proof -
  from verify_store [of h now st a' i' c] show ?thesis
  proof
    assume "snd (verify h now st a' i' c) = st"
    with assms show ?thesis by simp
  next
    assume "\<exists>k r'. lookup_idx (pending a' i') st = Some k \<and>
      snd (verify h now st a' i' c) = st[k := r'] \<and>
      (r' = (st ! k)\<lparr>consumed := True\<rparr> \<or> r' = (st ! k)\<lparr>attempts := attempts (st ! k) + 1\<rparr>)"
    then obtain k r' where k: "lookup_idx (pending a' i') st = Some k"
      and st': "snd (verify h now st a' i' c) = st[k := r']"
      and r': "r' = (st ! k)\<lparr>consumed := True\<rparr> \<or> r' = (st ! k)\<lparr>attempts := attempts (st ! k) + 1\<rparr>"
      by blast
    from k have "k < length st" by (simp add: lookup_idx_Some)
    then have mem: "st ! k \<in> set st" by simp
    from r' have keep: "pending a i r' \<longrightarrow> pending a i (st ! k) \<and> code_hash r' = code_hash (st ! k)"
      by (auto simp: pending_def)
    show ?thesis unfolding st' hash_avoided_def
    proof
      fix r
      assume "r \<in> set (st[k := r'])"
      then have "r = r' \<or> r \<in> set st"
        using set_update_subset_insert [of st k r'] by auto
      with assms mem keep show "pending a i r \<longrightarrow> code_hash r \<noteq> x"
        by (auto simp: hash_avoided_def)
    qed
  qed
qed

lemma hash_avoided_step:
  assumes "hash_avoided a i (h c) st" and "\<not> reissues h a i c op"
  shows "hash_avoided a i (h c) (otp_step h st op)"
proof (cases op)
  case (Issue now code a' i')
  with assms(2) have "a \<noteq> a' \<or> i \<noteq> i' \<or> h code \<noteq> h c" by auto
  with assms(1) Issue show ?thesis by (simp add: hash_avoided_issue)
next
  case (Verify now a' i' code)
  with assms(1) show ?thesis by (simp add: hash_avoided_verify)
next
  case (Resend now code a' i')
  with assms(2) have "a \<noteq> a' \<or> i \<noteq> i' \<or> h code \<noteq> h c" by auto
  with assms(1) Resend show ?thesis by (simp add: resend_def hash_avoided_issue)
qed

lemma hash_avoided_run:
  "hash_avoided a i (h c) st \<Longrightarrow> \<not> list_ex (reissues h a i c) ops \<Longrightarrow>
   hash_avoided a i (h c) (otp_run h ops st)"
proof (induction ops arbitrary: st)
  case Nil
  then show ?case by (simp add: otp_run_Nil)
next
  case (Cons op ops)
  from Cons.prems have "hash_avoided a i (h c) (otp_step h st op)"
    by (simp add: hash_avoided_step)
  moreover from Cons.prems have "\<not> list_ex (reissues h a i c) ops" by simp
  ultimately show ?case unfolding otp_run_Cons by (rule Cons.IH)
qed

lemma verify_fails_when_avoided:
  assumes "hash_avoided a i (h c) st"
  shows "\<exists>e. fst (verify h now st a i c) = Inl e"
proof (cases "fst (verify h now st a i c)")
  case (Inl e)
  then show ?thesis by blast
next
  case (Inr u)
  then have "fst (verify h now st a i c) = Inr ()" by simp
  from verify_success [OF this] obtain k
    where k: "lookup_idx (pending a i) st = Some k" and eq: "h c = code_hash (st ! k)"
    by blast
  from k have "k < length st" and "pending a i (st ! k)"
    by (simp_all add: lookup_idx_Some)
  with assms have "code_hash (st ! k) \<noteq> h c"
    by (simp add: hash_avoided_def)
  with eq show ?thesis by simp
qed

text \<open>
  Claim C5 as stated does not hold: a code is six random digits, and when the same
  digits are issued again for the pair after the first code was consumed, \<open>verify\<close>
  with that code succeeds again (on the new record).
\<close>

theorem consumed_code_reissued_counterexample:
  "fst (verify (\<lambda>s. s) 1 (otp_run (\<lambda>s. s) [Issue 0 ''123456'' ''a@x.com'' Register] [])
       ''a@x.com'' Register ''123456'') = Inr ()
   \<and> fst (verify (\<lambda>s. s) 3
        (otp_run (\<lambda>s. s) [Issue 2 ''123456'' ''a@x.com'' Register]
          (snd (verify (\<lambda>s. s) 1 (otp_run (\<lambda>s. s) [Issue 0 ''123456'' ''a@x.com'' Register] [])
             ''a@x.com'' Register ''123456'')))
        ''a@x.com'' Register ''123456'') = Inr ()"
  by (simp add: otp_run_def issue_def verify_def pending_def otp_expired_def otp_ttl_def
      otp_attempt_limit_def supersede_def)

text \<open>
  Claim C5, amended. Once \<open>verify\<close> has succeeded on an OTP of (account, intent), in
  a store reached from the empty one, every subsequent \<open>verify\<close> call with the same
  code for the pair fails, whatever calls come in between (other codes issued or resent
  for the pair included), as long as no code with the same hash is issued again for the
  pair. And the consumed OTP record never verifies again, whatever calls follow: it
  stays consumed, and every later successful \<open>verify\<close>, for any account, intent and
  code, consumes another record.
\<close>

theorem consumed_otp_never_verifies:
  assumes reach: "st = otp_run h ops0 []"
    and ok: "verify h now st a i c = (Inr (), st1)"
  shows "(\<forall>ops now'. \<not> list_ex (reissues h a i c) ops \<longrightarrow>
            (\<exists>e. fst (verify h now' (otp_run h ops st1) a i c) = Inl e))
       \<and> (\<exists>k. k < length st \<and> \<not> consumed (st ! k) \<and> st1 = st[k := (st ! k)\<lparr>consumed := True\<rparr>] \<and>
            (\<forall>ops now' a' i' c'.
               k < length (otp_run h ops st1) \<and> consumed (otp_run h ops st1 ! k) \<and>
               (fst (verify h now' (otp_run h ops st1) a' i' c') = Inr () \<longrightarrow>
                  (\<exists>j. j \<noteq> k \<and> j < length (otp_run h ops st1) \<and>
                       \<not> consumed (otp_run h ops st1 ! j) \<and>
                       snd (verify h now' (otp_run h ops st1) a' i' c') =
                         (otp_run h ops st1)[j := (otp_run h ops st1 ! j)\<lparr>consumed := True\<rparr>]))))"
proof -
  from ok have "fst (verify h now st a i c) = Inr ()" by simp
  from verify_success [OF this] ok obtain k
    where k: "lookup_idx (pending a i) st = Some k"
      and st1: "st1 = st[k := (st ! k)\<lparr>consumed := True\<rparr>]"
    by auto
  from k have klen: "k < length st" and kpend: "pending a i (st ! k)"
    by (simp_all add: lookup_idx_Some)
  have one: "length (filter (pending a i) st) \<le> 1"
    unfolding reach by (rule at_most_one_pending)
  have "\<not> pending a i ((st ! k)\<lparr>consumed := True\<rparr>)"
    by (simp add: pending_def)
  with one klen kpend have none: "filter (pending a i) st1 = []"
    unfolding st1 by (rule filter_update_empty)
  then have start: "hash_avoided a i (h c) st1"
    by (rule hash_avoided_empty)
  have first: "\<forall>ops now'. \<not> list_ex (reissues h a i c) ops \<longrightarrow>
      (\<exists>e. fst (verify h now' (otp_run h ops st1) a i c) = Inl e)"
  proof (intro allI impI)
    fix ops now'
    assume "\<not> list_ex (reissues h a i c) ops"
    with start have "hash_avoided a i (h c) (otp_run h ops st1)"
      by (rule hash_avoided_run)
    then show "\<exists>e. fst (verify h now' (otp_run h ops st1) a i c) = Inl e"
      by (rule verify_fails_when_avoided)
  qed
  from klen have k1: "k < length st1" and c1: "consumed (st1 ! k)"
    by (simp_all add: st1)
  have later: "k < length (otp_run h ops st1) \<and> consumed (otp_run h ops st1 ! k) \<and>
      (fst (verify h now' (otp_run h ops st1) a' i' c') = Inr () \<longrightarrow>
         (\<exists>j. j \<noteq> k \<and> j < length (otp_run h ops st1) \<and>
              \<not> consumed (otp_run h ops st1 ! j) \<and>
              snd (verify h now' (otp_run h ops st1) a' i' c') =
                (otp_run h ops st1)[j := (otp_run h ops st1 ! j)\<lparr>consumed := True\<rparr>]))"
    for ops now' a' i' c'
  proof -
    let ?s = "otp_run h ops st1"
    from k1 c1 have kc: "k < length ?s \<and> consumed (?s ! k)"
      by (rule consumed_run)
    have "\<exists>j. j \<noteq> k \<and> j < length ?s \<and> \<not> consumed (?s ! j) \<and>
        snd (verify h now' ?s a' i' c') = ?s[j := (?s ! j)\<lparr>consumed := True\<rparr>]"
      if "fst (verify h now' ?s a' i' c') = Inr ()"
    proof -
      from verify_success [OF that] obtain j
        where j: "lookup_idx (pending a' i') ?s = Some j"
          and upd: "snd (verify h now' ?s a' i' c') = ?s[j := (?s ! j)\<lparr>consumed := True\<rparr>]"
        by blast
      from j have jlen: "j < length ?s" and "pending a' i' (?s ! j)"
        by (simp_all add: lookup_idx_Some)
      then have fresh: "\<not> consumed (?s ! j)" by (simp add: pending_def)
      with kc have "j \<noteq> k" by auto
      with jlen fresh upd show ?thesis by blast
    qed
    with kc show ?thesis by blast
  qed
  from kpend have "\<not> consumed (st ! k)" by (simp add: pending_def)
  with first klen st1 later show ?thesis by blast
qed

theorem consumed_otp_never_verifies_witness:
  "verify (\<lambda>s. s) 1 (otp_run (\<lambda>s. s) [Issue 0 ''123456'' ''a@x.com'' Register] [])
       ''a@x.com'' Register ''123456''
     = (Inr (), [\<lparr>owner = ''a@x.com'', otp_intent = Register, code_hash = ''123456'',
          otp_issued_at = 0, otp_expires_at = 600, consumed = True, attempts = 0,
          superseded = False\<rparr>])
   \<and> (\<exists>e. fst (verify (\<lambda>s. s) 3
        (otp_run (\<lambda>s. s) [Resend 2 ''654321'' ''a@x.com'' Register]
           [\<lparr>owner = ''a@x.com'', otp_intent = Register, code_hash = ''123456'',
             otp_issued_at = 0, otp_expires_at = 600, consumed = True, attempts = 0,
             superseded = False\<rparr>])
        ''a@x.com'' Register ''123456'') = Inl e)
   \<and> fst (verify (\<lambda>s. s) 3
        (otp_run (\<lambda>s. s) [Resend 2 ''654321'' ''a@x.com'' Register]
           [\<lparr>owner = ''a@x.com'', otp_intent = Register, code_hash = ''123456'',
             otp_issued_at = 0, otp_expires_at = 600, consumed = True, attempts = 0,
             superseded = False\<rparr>])
        ''a@x.com'' Register ''123456'') = Inl OtpMismatch"
proof -
  let ?st = "otp_run (\<lambda>s. s) [Issue 0 ''123456'' ''a@x.com'' Register] []"
  let ?st1 = "[\<lparr>owner = ''a@x.com'', otp_intent = Register, code_hash = ''123456'',
          otp_issued_at = 0, otp_expires_at = 600, consumed = True, attempts = 0,
          superseded = False\<rparr>]"
  have ok: "verify (\<lambda>s. s) 1 ?st ''a@x.com'' Register ''123456'' = (Inr (), ?st1)"
    by (simp add: otp_run_def issue_def verify_def pending_def otp_expired_def otp_ttl_def
        otp_attempt_limit_def)
  have other: "\<not> list_ex (reissues (\<lambda>s. s) ''a@x.com'' Register ''123456'')
      [Resend 2 ''654321'' ''a@x.com'' Register]"
    by simp
  from consumed_otp_never_verifies [OF refl ok] other
  have fails: "\<exists>e. fst (verify (\<lambda>s. s) 3 (otp_run (\<lambda>s. s) [Resend 2 ''654321'' ''a@x.com'' Register] ?st1)
        ''a@x.com'' Register ''123456'') = Inl e"
    by blast
  have which: "fst (verify (\<lambda>s. s) 3 (otp_run (\<lambda>s. s) [Resend 2 ''654321'' ''a@x.com'' Register] ?st1)
        ''a@x.com'' Register ''123456'') = Inl OtpMismatch"
    by (simp add: otp_run_def issue_def resend_def verify_def pending_def otp_expired_def
        otp_ttl_def otp_attempt_limit_def supersede_def)
  from ok fails which show ?thesis by blast
qed



section \<open>The enumeration-sensitive flows\<close>









end
